theory Spec2Isabelle
  imports Main "HOL-Library.AList"
begin

section \<open>The JavaScript values and built-ins the module calls\<close>

text \<open>
  The module \<^verbatim>\<open>src/features/modals/NodeModal/index.tsx\<close> owns three functions:
  \<^verbatim>\<open>normalizeNodeData\<close>, \<^verbatim>\<open>jsonPathToString\<close> and \<^verbatim>\<open>applyEditToJson\<close>. Everything else
  it calls belongs to the platform (\<^verbatim>\<open>JSON.parse\<close>, \<^verbatim>\<open>JSON.stringify\<close>, \<^verbatim>\<open>String\<close>,
  \<^verbatim>\<open>slice\<close>, \<^verbatim>\<open>join\<close>) or to the library \<^verbatim>\<open>jsonc-parser\<close> (\<^verbatim>\<open>modify\<close>).

  Text is a \<^typ>\<open>string\<close>: one \<^typ>\<open>char\<close> per code unit, so code units beyond one byte
  are not represented. A JavaScript number is a value of the type parameter \<open>'n\<close>; what
  the platform does with numbers (printing them, telling the finite ones) is taken from
  the host record below, as are \<^verbatim>\<open>JSON.parse\<close> and \<^verbatim>\<open>modify\<close>, whose code is not part of
  this repository. A theorem about a function that takes a host holds for every host.
\<close>

datatype 'n prim = JNull | JBool bool | JNum 'n | JStr string

datatype 'n json = Prim "'n prim" | Arr "'n json list" | Obj "(string \<times> 'n json) list"

text \<open>What a \<^verbatim>\<open>throw\<close> carries: \<^verbatim>\<open>JSON.parse\<close> throws a SyntaxError, the library an Error.\<close>

datatype exn = SyntaxError | Error string

text \<open>A path segment is \<^verbatim>\<open>string | number\<close>; the numbers are array indices.\<close>

datatype segment = Key string | Index nat

text \<open>The \<^verbatim>\<open>Edit\<close> of jsonc-parser: \<^verbatim>\<open>{ offset: number, length: number, content: string }\<close>.\<close>

record Edit =
  offset :: int
  length' :: int
  content :: string

record FormattingOptions =
  insertSpaces :: bool
  tabSize :: nat

record 'n host =
  Number_toString :: "'n \<Rightarrow> string"
  Number_isFinite :: "'n \<Rightarrow> bool"
  JSON_parse :: "string \<Rightarrow> exn + 'n json"
  jsoncModify :: "string \<Rightarrow> segment list \<Rightarrow> 'n json \<Rightarrow> FormattingOptions \<Rightarrow> exn + Edit list"

subsection \<open>Strings\<close>

text \<open>\<^verbatim>\<open>Array.prototype.join\<close> on an array of strings.\<close>

fun join :: "string \<Rightarrow> string list \<Rightarrow> string" where
  "join sep [] = []"
| "join sep [x] = x"
| "join sep (x # y # ys) = x @ sep @ join sep (y # ys)"

text \<open>
  \<^verbatim>\<open>String.prototype.slice(start, end)\<close>: a negative position counts from the end, and
  every position is clamped to the text; nothing is thrown for a position outside it.
\<close>

definition clamp_pos :: "'a list \<Rightarrow> int \<Rightarrow> nat" where
  "clamp_pos s k =
     (let len = int (length s)
      in nat (if k < 0 then max (len + k) 0 else min k len))"

definition slice :: "'a list \<Rightarrow> int \<Rightarrow> int \<Rightarrow> 'a list" where
  "slice s start end' = drop (clamp_pos s start) (take (clamp_pos s end') s)"

definition slice_from :: "'a list \<Rightarrow> int \<Rightarrow> 'a list" where
  "slice_from s start = drop (clamp_pos s start) s"

text \<open>The decimal numeral of an array index, as \<^verbatim>\<open>Number.prototype.toString\<close> prints it.\<close>

fun decimal :: "nat \<Rightarrow> string" where
  "decimal n =
     (if n < 10 then [char_of (48 + n)]
      else decimal (n div 10) @ [char_of (48 + n mod 10)])"

declare decimal.simps [simp del]

text \<open>The template literal \<^verbatim>\<open>`${v}`\<close> on a primitive value (\<^verbatim>\<open>ToString\<close>).\<close>

definition ToString :: "'n host \<Rightarrow> 'n prim \<Rightarrow> string" where
  "ToString h v =
     (case v of
        JNull \<Rightarrow> ''null''
      | JBool b \<Rightarrow> (if b then ''true'' else ''false'')
      | JNum n \<Rightarrow> Number_toString h n
      | JStr s \<Rightarrow> s)"

subsection \<open>\<^verbatim>\<open>JSON.stringify\<close>\<close>

definition hex_digit :: "nat \<Rightarrow> char" where
  "hex_digit d = (if d < 10 then char_of (48 + d) else char_of (87 + d))"

text \<open>\<^verbatim>\<open>QuoteJSONString\<close>, one code unit at a time.\<close>

definition quote_unit :: "char \<Rightarrow> string" where
  "quote_unit c =
     (if c = CHR 0x08 then [CHR 0x5C, CHR ''b'']
      else if c = CHR 0x09 then [CHR 0x5C, CHR ''t'']
      else if c = CHR 0x0A then [CHR 0x5C, CHR ''n'']
      else if c = CHR 0x0C then [CHR 0x5C, CHR ''f'']
      else if c = CHR 0x0D then [CHR 0x5C, CHR ''r'']
      else if c = CHR 0x22 then [CHR 0x5C, CHR 0x22]
      else if c = CHR 0x5C then [CHR 0x5C, CHR 0x5C]
      else if (of_char c :: nat) < 32
        then [CHR 0x5C, CHR ''u'', CHR ''0'', CHR ''0'',
              hex_digit (of_char c div 16), hex_digit (of_char c mod 16)]
      else [c])"

definition QuoteJSONString :: "string \<Rightarrow> string" where
  "QuoteJSONString s = [CHR 0x22] @ concat (map quote_unit s) @ [CHR 0x22]"

text \<open>
  \<^verbatim>\<open>SerializeJSONProperty\<close> with its two pieces of state, the gap and the current
  indentation. A number that is not finite is written \<^verbatim>\<open>null\<close>. With an empty gap
  the members are joined by a comma and nothing else.
\<close>

definition brackets :: "string \<Rightarrow> string \<Rightarrow> string \<Rightarrow> string \<Rightarrow> string list \<Rightarrow> string" where
  "brackets opening closing gap stepback partial =
     (if partial = [] then opening @ closing
      else if gap = [] then opening @ join '','' partial @ closing
      else opening @ [CHR 0x0A] @ (stepback @ gap)
             @ join ('','' @ [CHR 0x0A] @ (stepback @ gap)) partial
             @ [CHR 0x0A] @ stepback @ closing)"

fun SerializeJSONProperty :: "'n host \<Rightarrow> string \<Rightarrow> string \<Rightarrow> 'n json \<Rightarrow> string" where
  "SerializeJSONProperty h gap indent (Prim v) =
     (case v of
        JNull \<Rightarrow> ''null''
      | JBool b \<Rightarrow> (if b then ''true'' else ''false'')
      | JNum n \<Rightarrow> (if Number_isFinite h n then Number_toString h n else ''null'')
      | JStr s \<Rightarrow> QuoteJSONString s)"
| "SerializeJSONProperty h gap indent (Arr xs) =
     brackets ''['' '']'' gap indent
       (map (SerializeJSONProperty h gap (indent @ gap)) xs)"
| "SerializeJSONProperty h gap indent (Obj kvs) =
     brackets ''{'' ''}'' gap indent
       (map (\<lambda>kv. QuoteJSONString (fst kv) @ '':'' @ (if gap = [] then [] else '' '')
                    @ SerializeJSONProperty h gap (indent @ gap) (snd kv)) kvs)"

text \<open>\<^verbatim>\<open>JSON.stringify(v, null, space)\<close> for a numeric \<^verbatim>\<open>space\<close>: at most ten blanks.\<close>

definition JSON_stringify :: "'n host \<Rightarrow> 'n json \<Rightarrow> nat \<Rightarrow> string" where
  "JSON_stringify h v space = SerializeJSONProperty h (replicate (min 10 space) CHR '' '') [] v"

section \<open>The module's own functions\<close>

subsection \<open>\<^verbatim>\<open>normalizeNodeData\<close>\<close>

text \<open>
  A row of a node (\<^verbatim>\<open>NodeData["text"]\<close>, declared in \<^verbatim>\<open>types/graph\<close>, which is not among
  the sources): the function reads a nullable \<^verbatim>\<open>key\<close>, a primitive \<^verbatim>\<open>value\<close> and the
  \<^verbatim>\<open>type\<close> tag.
\<close>

record 'n row =
  key :: "string option"
  value' :: "'n prim"
  type :: string

text \<open>\<^verbatim>\<open>row.key\<close> in a condition: \<^verbatim>\<open>null\<close> and the empty string are falsy.\<close>

definition truthy :: "string option \<Rightarrow> bool" where
  "truthy k = (case k of None \<Rightarrow> False | Some s \<Rightarrow> s \<noteq> [])"

text \<open>
  The object literal \<^verbatim>\<open>{}\<close> and the assignment \<^verbatim>\<open>obj[k] = v\<close> of a primitive \<^verbatim>\<open>v\<close>.
  An ordinary object keeps its own properties in creation order; assigning to a key it
  has overwrites the value in place. The key \<^verbatim>\<open>__proto__\<close> is not a property of a
  fresh object but an accessor it inherits: assigning \<^verbatim>\<open>null\<close> to it removes the
  prototype (after which the key is an ordinary one), assigning any other primitive does
  nothing.
\<close>

record 'v object =
  properties :: "(string \<times> 'v) list"
  hasPrototype :: bool

definition empty_object :: "'v object" where
  "empty_object = \<lparr>properties = [], hasPrototype = True\<rparr>"

definition assign :: "'n prim object \<Rightarrow> string \<Rightarrow> 'n prim \<Rightarrow> 'n prim object" where
  "assign obj k v =
     (if k = ''__proto__'' \<and> hasPrototype obj
      then (if v = JNull then obj\<lparr>hasPrototype := False\<rparr> else obj)
      else obj\<lparr>properties := AList.update k v (properties obj)\<rparr>)"

text \<open>
  The order in which \<^verbatim>\<open>JSON.stringify\<close> visits the own properties
  (\<^verbatim>\<open>OrdinaryOwnPropertyKeys\<close>): the array indices first, ascending, then the other
  keys in creation order. An array index is the canonical numeral of an integer
  below \<open>2\<^sup>3\<^sup>2 - 1\<close>.
\<close>

definition is_digit :: "char \<Rightarrow> bool" where
  "is_digit c = (48 \<le> (of_char c :: nat) \<and> (of_char c :: nat) \<le> 57)"

definition nat_of_digits :: "string \<Rightarrow> nat" where
  "nat_of_digits s = foldl (\<lambda>acc c. 10 * acc + (of_char c - 48)) 0 s"

definition array_index :: "string \<Rightarrow> nat option" where
  "array_index s =
     (if s \<noteq> [] \<and> list_all is_digit s \<and> (if s = ''0'' then True else hd s \<noteq> CHR ''0'')
         \<and> nat_of_digits s < 4294967295
      then Some (nat_of_digits s) else None)"

definition OwnPropertyKeys :: "(string \<times> 'v) list \<Rightarrow> (string \<times> 'v) list" where
  "OwnPropertyKeys ps =
     sort_key (\<lambda>p. the (array_index (fst p))) (filter (\<lambda>p. array_index (fst p) \<noteq> None) ps)
     @ filter (\<lambda>p. array_index (fst p) = None) ps"

definition json_of_object :: "'n prim object \<Rightarrow> 'n json" where
  "json_of_object obj = Obj (map (\<lambda>p. (fst p, Prim (snd p))) (OwnPropertyKeys (properties obj)))"

text \<open>The body of the \<^verbatim>\<open>forEach\<close> of lines 25 to 29, one row at a time.\<close>

definition add_row :: "'n prim object \<Rightarrow> 'n row \<Rightarrow> 'n prim object" where
  "add_row obj row =
     (if type row \<noteq> ''array'' \<and> type row \<noteq> ''object''
      then (if truthy (key row) then assign obj (the (key row)) (value' row) else obj)
      else obj)"

definition normalizeNodeData :: "'n host \<Rightarrow> 'n row list option \<Rightarrow> string" where
  "normalizeNodeData h nodeRows =
     (case nodeRows of
        None \<Rightarrow> ''{}''
      | Some rows \<Rightarrow>
          if length rows = 0 then ''{}''
          else if length rows = 1 \<and> \<not> truthy (key (rows ! 0))
            then ToString h (value' (rows ! 0))
          else JSON_stringify h (json_of_object (foldl add_row empty_object rows)) 2)"

subsection \<open>\<^verbatim>\<open>jsonPathToString\<close>\<close>

definition jsonPathToString :: "segment list option \<Rightarrow> string" where
  "jsonPathToString path =
     (case path of
        None \<Rightarrow> ''$''
      | Some p \<Rightarrow>
          if length p = 0 then ''$''
          else (let segments = map (\<lambda>seg. case seg of
                                        Index n \<Rightarrow> decimal n
                                      | Key s \<Rightarrow> [CHR 0x22] @ s @ [CHR 0x22]) p
                in ''$['' @ join ''][''  segments @ '']''))"

subsection \<open>\<^verbatim>\<open>applyEditToJson\<close>\<close>

text \<open>
  Lines 85 to 92: the edits are taken in reverse order of the list, and each is spliced
  into the running text with \<^verbatim>\<open>slice\<close>. Nothing sorts the list and nothing compares an
  offset with the length of the text.
\<close>

definition splice :: "string \<Rightarrow> Edit \<Rightarrow> string" where
  "splice result e =
     slice result 0 (offset e) @ content e @ slice_from result (offset e + length' e)"

definition applyEdits :: "string \<Rightarrow> Edit list \<Rightarrow> string" where
  "applyEdits originalJson edits = foldl splice originalJson (rev edits)"

text \<open>\<^verbatim>\<open>!path || path.length === 0\<close>\<close>

definition no_path :: "segment list option \<Rightarrow> bool" where
  "no_path path = (case path of None \<Rightarrow> True | Some p \<Rightarrow> length p = 0)"

text \<open>
  The body of the outer \<^verbatim>\<open>try\<close> (lines 55 to 94): \<open>Inl\<close> is an exception on its way to
  the \<^verbatim>\<open>catch\<close> of line 95. The inner \<^verbatim>\<open>try\<close> around \<^verbatim>\<open>JSON.parse(newValueRaw ?? "null")\<close>
  stands twice in the source, once in each branch, and so it does here.
\<close>

definition applyEditToJson_try ::
  "'n host \<Rightarrow> string \<Rightarrow> segment list option \<Rightarrow> string option \<Rightarrow> exn + string" where
  "applyEditToJson_try h originalJson path newValueRaw =
     (if no_path path then
        (case JSON_parse h originalJson of
           Inl err \<Rightarrow> Inl err
         | Inr parsed \<Rightarrow>
             (let newVal =
                (case JSON_parse h (case newValueRaw of None \<Rightarrow> ''null'' | Some s \<Rightarrow> s) of
                   Inr v \<Rightarrow> v
                 | Inl e \<Rightarrow> Prim (JStr (case newValueRaw of None \<Rightarrow> [] | Some s \<Rightarrow> s)))
              in Inr (JSON_stringify h newVal 2)))
      else
        (let nodePath = map (\<lambda>p. case p of Index n \<Rightarrow> Index n | Key s \<Rightarrow> Key s)
                            (case path of None \<Rightarrow> [] | Some p \<Rightarrow> p);
             newVal =
               (case JSON_parse h (case newValueRaw of None \<Rightarrow> ''null'' | Some s \<Rightarrow> s) of
                  Inr v \<Rightarrow> v
                | Inl e \<Rightarrow> Prim (JStr (case newValueRaw of None \<Rightarrow> [] | Some s \<Rightarrow> s)))
         in case jsoncModify h originalJson nodePath newVal
                   \<lparr>insertSpaces = True, tabSize = 2\<rparr> of
              Inl err \<Rightarrow> Inl err
            | Inr edits \<Rightarrow> Inr (applyEdits originalJson edits)))"

definition applyEditToJson ::
  "'n host \<Rightarrow> string \<Rightarrow> segment list option \<Rightarrow> string option \<Rightarrow> string" where
  "applyEditToJson h originalJson path newValueRaw =
     (case applyEditToJson_try h originalJson path newValueRaw of
        Inr result \<Rightarrow> result
      | Inl err \<Rightarrow> originalJson)"

section \<open>Reference notions the properties are stated with\<close>

subsection \<open>Edit descriptors\<close>

text \<open>A descriptor lies within the text.\<close>

definition in_bounds :: "string \<Rightarrow> Edit \<Rightarrow> bool" where
  "in_bounds text e =
     (0 \<le> offset e \<and> 0 \<le> length' e \<and> offset e + length' e \<le> int (length text))"

text \<open>Two descriptors do not overlap.\<close>

definition apart :: "Edit \<Rightarrow> Edit \<Rightarrow> bool" where
  "apart a b = (offset a + length' a \<le> offset b \<or> offset b + length' b \<le> offset a)"

text \<open>
  The list goes from left to right through the text: every descriptor begins at or after
  the end of each descriptor listed before it. So the offsets ascend and no two spans
  overlap, and an insertion at the position where a replacement begins is listed before
  the replacement.
\<close>

definition in_order :: "Edit list \<Rightarrow> bool" where
  "in_order edits = sorted_wrt (\<lambda>a b. offset a + length' a \<le> offset b) edits"


text \<open>
  The same as a recursion, for the proofs: each descriptor starts at or after \<open>lo\<close> and
  after the end of the one before it, no length is negative, and the last one ends at or
  before \<open>hi\<close>.
\<close>

fun well_placed :: "int \<Rightarrow> int \<Rightarrow> Edit list \<Rightarrow> bool" where
  "well_placed lo hi [] = (lo \<le> hi)"
| "well_placed lo hi (e # es) =
     (lo \<le> offset e \<and> 0 \<le> length' e \<and> well_placed (offset e + length' e) hi es)"

text \<open>
  The text in which every descriptor's span of the original is replaced by its content,
  read from left to right starting at position \<open>pos\<close> of the original.
\<close>

fun rebuild :: "string \<Rightarrow> int \<Rightarrow> Edit list \<Rightarrow> string" where
  "rebuild text pos [] = drop (nat pos) text"
| "rebuild text pos (e # es) =
     take (nat (offset e - pos)) (drop (nat pos) text) @ content e
     @ rebuild text (offset e + length' e) es"

text \<open>
  The procedure in the words of the specification: sort the descriptors by offset,
  descending, then splice each into the running text.
\<close>

definition patch_descending :: "string \<Rightarrow> Edit list \<Rightarrow> string" where
  "patch_descending text edits = foldl splice text (sort_key (\<lambda>e. - offset e) edits)"

subsection \<open>The new value\<close>

text \<open>
  The two-tier rule in the words of the specification: the raw text parsed as JSON, or,
  when it does not parse, the raw text as a string.
\<close>

definition two_tier :: "'n host \<Rightarrow> string \<Rightarrow> 'n json" where
  "two_tier h raw = (case JSON_parse h raw of Inr v \<Rightarrow> v | Inl e \<Rightarrow> Prim (JStr raw))"

text \<open>The same with the defaults the code gives an absent raw text.\<close>

definition written_value :: "'n host \<Rightarrow> string option \<Rightarrow> 'n json" where
  "written_value h newValueRaw =
     (case newValueRaw of
        Some raw \<Rightarrow> two_tier h raw
      | None \<Rightarrow> (case JSON_parse h ''null'' of Inr v \<Rightarrow> v | Inl e \<Rightarrow> Prim (JStr [])))"

subsection \<open>Rows\<close>

text \<open>A row that has a key and whose type is neither \<^verbatim>\<open>array\<close> nor \<^verbatim>\<open>object\<close>.\<close>

definition scalar_keyed :: "'n row \<Rightarrow> bool" where
  "scalar_keyed r = (truthy (key r) \<and> type r \<noteq> ''array'' \<and> type r \<noteq> ''object'')"

section \<open>A host for the worked examples\<close>

text \<open>
  The examples run on a host whose numbers are the integers, printed in decimal and all
  finite. Its \<^verbatim>\<open>JSON.parse\<close> and its \<^verbatim>\<open>modify\<close> are tables. \<^verbatim>\<open>JSON.parse\<close> answers as the
  platform does on the texts listed, and throws on every other text, which is what the
  platform does on the two other texts the examples parse, \<^verbatim>\<open>hello\<close> and \<^verbatim>\<open>{\<close>. The
  entries of \<^verbatim>\<open>modify\<close> follow \<^verbatim>\<open>setProperty\<close> and \<^verbatim>\<open>withFormatting\<close> of jsonc-parser 3 on the
  arguments listed; the examples call it on no other arguments.
\<close>

definition int_toString :: "int \<Rightarrow> string" where
  "int_toString i = (if i < 0 then ''-'' @ decimal (nat (- i)) else decimal (nat i))"

definition sample_parse :: "string \<Rightarrow> exn + int json" where
  \<open>sample_parse s =
     (if s = ''null'' then Inr (Prim JNull)
      else if s = ''true'' then Inr (Prim (JBool True))
      else if s = ''1'' then Inr (Prim (JNum 1))
      else if s = ''7'' then Inr (Prim (JNum 7))
      else if s = ''42'' then Inr (Prim (JNum 42))
      else if s = ''"hello"'' then Inr (Prim (JStr ''hello''))
      else if s = ''[]'' then Inr (Arr [])
      else if s = ''{"a":1}'' then Inr (Obj [(''a'', Prim (JNum 1))])
      else if s = ''{'' @ [CHR 0x0A] @ ''  "a": 1'' @ [CHR 0x0A] @ ''}''
        then Inr (Obj [(''a'', Prim (JNum 1))])
      else Inl SyntaxError)\<close>

text \<open>The numbers and the parser; \<^verbatim>\<open>modify\<close> is filled in below.\<close>

definition sample_numbers :: "int host" where
  "sample_numbers =
     \<lparr>Number_toString = int_toString, Number_isFinite = (\<lambda>n. True),
      JSON_parse = sample_parse, jsoncModify = (\<lambda>text path v opts. Inl (Error []))\<rparr>"

text \<open>
  The entries of \<^verbatim>\<open>modify\<close>. The value of the property \<^verbatim>\<open>a\<close> of \<^verbatim>\<open>{"a":1}\<close> is the one
  character at offset 5, that of \<^verbatim>\<open>{"a":42}\<close> the two characters at offset 5, and either is
  replaced by the compact serialization of the new value.
  A key below the number \<^verbatim>\<open>1\<close> is refused with an Error. An index past the end of an
  array inserts after the last element (into the empty array, after the bracket), and the
  line of the insertion is formatted, one element to a line.
\<close>

definition sample_modify ::
  "string \<Rightarrow> segment list \<Rightarrow> int json \<Rightarrow> FormattingOptions \<Rightarrow> exn + Edit list" where
  \<open>sample_modify text path v opts =
     (if text = ''{"a":1}'' \<and> path = [Key ''a'']
        then Inr [\<lparr>offset = 5, length' = 1, content = JSON_stringify sample_numbers v 0\<rparr>]
      else if text = ''{"a":42}'' \<and> path = [Key ''a'']
        then Inr [\<lparr>offset = 5, length' = 2, content = JSON_stringify sample_numbers v 0\<rparr>]
      else if text = ''{"a":1}'' \<and> path = [Key ''a'', Key ''b'']
        then Inl (Error ''Can not add index to parent of type number'')
      else if text = ''[]'' \<and> path = [Index 1] \<and> v = Prim (JNum 7)
        then Inr [\<lparr>offset = 0, length' = 2,
                   content = ''['' @ [CHR 0x0A] @ ''  7'' @ [CHR 0x0A] @ '']''\<rparr>]
      else if text = ''['' @ [CHR 0x0A] @ ''  7'' @ [CHR 0x0A] @ '']'' \<and> path = [Index 1]
              \<and> v = Prim (JNum 7)
        then Inr [\<lparr>offset = 2, length' = 3, content = ''  7,'' @ [CHR 0x0A] @ ''  7''\<rparr>]
      else Inl (Error ''not listed''))\<close>

definition sample_host :: "int host" where
  "sample_host = sample_numbers\<lparr>jsoncModify := sample_modify\<rparr>"

section \<open>Properties\<close>

subsection \<open>Path rendering\<close>

lemma bracketed_join:
  "xs \<noteq> [] \<Longrightarrow> ''['' @ join '']['' xs @ '']'' = concat (map (\<lambda>x. ''['' @ x @ '']'') xs)"
  by (induction "'']['' " xs rule: join.induct) auto

text \<open>\<^verbatim>\<open>decimal\<close> prints the numeral that reads back as the index.\<close>

lemma nat_of_digits_decimal: "nat_of_digits (decimal n) = n"
proof (induction n rule: decimal.induct)
  case (1 n)
  show ?case
  proof (cases "n < 10")
    case True
    then show ?thesis by (subst decimal.simps) (simp add: nat_of_digits_def)
  next
    case False
    with 1 show ?thesis
      by (subst decimal.simps) (simp add: nat_of_digits_def)
  qed
qed

text \<open>
  Claim C7. \<^verbatim>\<open>jsonPathToString\<close> renders an absent or empty path as \<^verbatim>\<open>$\<close>, and any other
  path as \<^verbatim>\<open>$\<close> followed by one bracketed segment after the other, a numeric segment as its
  bare decimal numeral and a string segment between double quotes (the key itself, with
  no escaping); the path \<^verbatim>\<open>["customer", 0, "name"]\<close> renders as
  \<^verbatim>\<open>$["customer"][0]["name"]\<close>.
\<close>

theorem jsonPathToString_renders:
  \<open>jsonPathToString None = ''$''
   \<and> jsonPathToString (Some []) = ''$''
   \<and> jsonPathToString (Some (seg # path)) =
       ''$'' @ concat (map (\<lambda>s. ''['' @ (case s of Index n \<Rightarrow> decimal n
                                              | Key k \<Rightarrow> [CHR 0x22] @ k @ [CHR 0x22]) @ '']'')
                           (seg # path))
   \<and> jsonPathToString (Some [Key ''customer'', Index 0, Key ''name''])
       = ''$["customer"][0]["name"]''\<close>
proof -
  have shape: "jsonPathToString (Some p) =
      ''$'' @ concat (map (\<lambda>s. ''['' @ (case s of Index n \<Rightarrow> decimal n
                                              | Key k \<Rightarrow> [CHR 0x22] @ k @ [CHR 0x22]) @ '']'') p)"
    if "p \<noteq> []" for p
    using that bracketed_join [of "map (\<lambda>seg. case seg of Index n \<Rightarrow> decimal n
                                      | Key s \<Rightarrow> [CHR 0x22] @ s @ [CHR 0x22]) p"]
    by (simp add: jsonPathToString_def comp_def)
  have zero: "decimal 0 = ''0''" by code_simp
  show ?thesis
    apply (intro conjI)
       apply (simp add: jsonPathToString_def)
      apply (simp add: jsonPathToString_def)
     apply (rule shape, simp)
    apply (simp add: shape zero)
    done
qed

subsection \<open>Rows of a node\<close>

text \<open>
  Claim C8. On an absent row set and on an empty one \<^verbatim>\<open>normalizeNodeData\<close> returns the
  two characters \<^verbatim>\<open>{}\<close>, for every host.
\<close>

theorem normalizeNodeData_empty:
  "normalizeNodeData h None = ''{}'' \<and> normalizeNodeData h (Some []) = ''{}''"
  by (simp add: normalizeNodeData_def)

section \<open>Evaluating the examples\<close>

lemmas sample_simps =
  sample_host_def sample_numbers_def sample_parse_def sample_modify_def int_toString_def

lemmas stringify_simps =
  JSON_stringify_def brackets_def QuoteJSONString_def quote_unit_def hex_digit_def

lemmas edit_simps = applyEdits_def splice_def slice_def slice_from_def clamp_pos_def

lemma decimal_samples:
  "decimal (Suc 0) = ''1''" "decimal 2 = ''2''" "decimal 7 = ''7''" "decimal 42 = ''42''"
  by code_simp+

text \<open>What the sample host answers in the examples.\<close>

lemma sample_two_tier:
  "two_tier sample_host ''hello'' = Prim (JStr ''hello'')"
  "two_tier sample_host ''42'' = Prim (JNum 42)"
  "two_tier sample_host ''true'' = Prim (JBool True)"
  "two_tier sample_host ''1'' = Prim (JNum 1)"
  "two_tier sample_host ''7'' = Prim (JNum 7)"
  \<open>two_tier sample_host ''{"a":1}'' = Obj [(''a'', Prim (JNum 1))]\<close>
  by (simp_all add: two_tier_def sample_simps)

lemma sample_stringify:
  \<open>JSON_stringify sample_host (Prim (JStr ''hello'')) 2 = ''"hello"''\<close>
  "JSON_stringify sample_host (Prim (JNum 42)) 2 = ''42''"
  \<open>JSON_stringify sample_numbers (Prim (JStr ''hello'')) 0 = ''"hello"''\<close>
  "JSON_stringify sample_numbers (Prim (JNum 42)) 0 = ''42''"
  "JSON_stringify sample_numbers (Prim (JNum 1)) 0 = ''1''"
  "JSON_stringify sample_numbers (Prim (JBool True)) 0 = ''true''"
  "JSON_stringify sample_numbers (Prim JNull) 0 = ''null''"
  \<open>JSON_stringify sample_host (Obj [(''a'', Prim (JNum 1))]) 0 = ''{"a":1}''\<close>
  \<open>JSON_stringify sample_host (Obj [(''a'', Prim (JNum 1))]) 2
     = ''{'' @ [CHR 0x0A] @ ''  "a": 1'' @ [CHR 0x0A] @ ''}''\<close>
  by (simp_all add: stringify_simps sample_simps decimal_samples numeral_2_eq_2)

lemma sample_parse_doc:
  \<open>JSON_parse sample_host ''{"a":1}'' = Inr (Obj [(''a'', Prim (JNum 1))])\<close>
  "JSON_parse sample_host ''[]'' = Inr (Arr [])"
  "JSON_parse sample_host ''{'' = Inl SyntaxError"
  "JSON_parse sample_host ''null'' = Inr (Prim JNull)"
  "JSON_parse sample_host ''42'' = Inr (Prim (JNum 42))"
  \<open>JSON_parse sample_host (''{'' @ [CHR 0x0A] @ ''  "a": 1'' @ [CHR 0x0A] @ ''}'')
     = Inr (Obj [(''a'', Prim (JNum 1))])\<close>
  by (simp_all add: sample_simps)

lemma sample_modify_a:
  \<open>jsoncModify sample_host ''{"a":1}'' [Key ''a''] v \<lparr>insertSpaces = True, tabSize = 2\<rparr>
     = Inr [\<lparr>offset = 5, length' = 1, content = JSON_stringify sample_numbers v 0\<rparr>]\<close>
  by (simp add: sample_simps)


lemma splice_a:
  \<open>applyEdits ''{"a":1}'' [\<lparr>offset = 5, length' = 1, content = c\<rparr>] = ''{"a":'' @ c @ ''}''\<close>
  by (simp add: edit_simps)

lemma no_path_simps: "no_path None" "no_path (Some [])" "\<not> no_path (Some (seg # segs))"
  by (simp_all add: no_path_def)

section \<open>Applying the edit descriptors\<close>

text \<open>With an offset and a length that are not negative, \<^verbatim>\<open>slice\<close> is \<open>take\<close> and \<open>drop\<close>.\<close>

lemma splice_within:
  assumes "0 \<le> offset e" "0 \<le> length' e"
  shows "splice r e = take (nat (offset e)) r @ content e @ drop (nat (offset e + length' e)) r"
proof -
  have a: "clamp_pos r 0 = 0" by (simp add: clamp_pos_def)
  have b: "take (clamp_pos r (offset e)) r = take (nat (offset e)) r"
    using assms by (simp add: clamp_pos_def Let_def min_def)
  have c: "drop (clamp_pos r (offset e + length' e)) r = drop (nat (offset e + length' e)) r"
    using assms by (simp add: clamp_pos_def Let_def min_def)
  show ?thesis by (simp add: splice_def slice_def slice_from_def a b c)
qed

lemma well_placed_le: "well_placed lo hi es \<Longrightarrow> lo \<le> hi"
proof (induction es arbitrary: lo)
  case Nil
  then show ?case by simp
next
  case (Cons e es)
  then have "offset e + length' e \<le> hi" by simp
  with Cons.prems show ?case by simp
qed

lemma applyEdits_Cons: "applyEdits text (e # es) = splice (applyEdits text es) e"
  by (simp add: applyEdits_def)

text \<open>
  The invariant of the loop, read from the last descriptor to the first: once the
  descriptors from some position on are applied, the text before that position is still
  the original's.
\<close>

lemma applyEdits_prefix:
  "well_placed lo (int (length text)) es \<Longrightarrow> 0 \<le> lo \<Longrightarrow>
   applyEdits text es = take (nat lo) text @ rebuild text lo es"
proof (induction es arbitrary: lo)
  case Nil
  then show ?case by (simp add: applyEdits_def)
next
  case (Cons e es)
  let ?next = "offset e + length' e"
  from Cons.prems have off: "lo \<le> offset e" and len: "0 \<le> length' e"
    and rest: "well_placed ?next (int (length text)) es" by simp_all
  from rest have top: "?next \<le> int (length text)" by (rule well_placed_le)
  from off Cons.prems(2) have off0: "0 \<le> offset e" by simp
  have ih: "applyEdits text es = take (nat ?next) text @ rebuild text ?next es"
    using Cons.IH [OF rest] off0 len by simp
  have size: "length (take (nat ?next) text) = nat ?next"
    using top by simp
  have before: "take (nat (offset e)) (take (nat ?next) text @ rebuild text ?next es)
                 = take (nat (offset e)) text"
  proof -
    have "nat (offset e) \<le> length (take (nat ?next) text)"
      using len off0 size by simp
    then have "take (nat (offset e)) (take (nat ?next) text @ rebuild text ?next es)
                 = take (nat (offset e)) (take (nat ?next) text)"
      by simp
    also have "\<dots> = take (nat (offset e)) text"
      using len off0 by (simp add: min_def)
    finally show ?thesis .
  qed
  have behind: "drop (nat ?next) (take (nat ?next) text @ rebuild text ?next es)
                 = rebuild text ?next es"
    using size by simp
  have glue: "take (nat lo) text @ take (nat (offset e - lo)) (drop (nat lo) text)
                 = take (nat (offset e)) text"
  proof -
    have "nat (offset e) = nat lo + nat (offset e - lo)"
      using off Cons.prems(2) by simp
    then show ?thesis by (simp add: take_add)
  qed
  have "applyEdits text (e # es) = take (nat (offset e)) text @ content e @ rebuild text ?next es"
    by (simp only: applyEdits_Cons ih splice_within [OF off0 len] before behind)
  also have "\<dots> = take (nat lo) text @ rebuild text lo (e # es)"
    using glue by (simp flip: append_assoc)
  finally show ?case .
qed

text \<open>A list of valid descriptors that is in order meets the recursive form.\<close>

lemma well_placed_from:
  "list_all (\<lambda>e. lo \<le> offset e \<and> in_bounds text e) es \<Longrightarrow> in_order es \<Longrightarrow>
   lo \<le> int (length text) \<Longrightarrow> well_placed lo (int (length text)) es"
proof (induction es arbitrary: lo)
  case Nil
  then show ?case by simp
next
  case (Cons e es)
  let ?next = "offset e + length' e"
  from Cons.prems(1) have here: "lo \<le> offset e" "in_bounds text e"
    and others: "list_all (in_bounds text) es"
    by (simp_all add: list_all_iff)
  from Cons.prems(2) have after: "\<forall>x\<in>set es. ?next \<le> offset x" and rest: "in_order es"
    by (simp_all add: in_order_def)
  from here(2) have len: "0 \<le> length' e" and top: "?next \<le> int (length text)"
    by (simp_all add: in_bounds_def)
  from others after have "list_all (\<lambda>x. ?next \<le> offset x \<and> in_bounds text x) es"
    by (simp add: list_all_iff)
  from Cons.IH [OF this rest top] here(1) len show ?case by simp
qed

lemma well_placed_in_order:
  assumes "list_all (in_bounds text) edits" and "in_order edits"
  shows "well_placed 0 (int (length text)) edits"
proof -
  from assms(1) have "list_all (\<lambda>e. 0 \<le> offset e \<and> in_bounds text e) edits"
    by (simp add: list_all_iff in_bounds_def)
  from well_placed_from [OF this assms(2)] show ?thesis by simp
qed




text \<open>
  Nothing in the loop throws. A descriptor that begins past the end of the text is not
  refused: \<^verbatim>\<open>slice\<close> clamps both positions, and the content is appended.
\<close>

lemma splice_past_the_end:
  "int (length text) \<le> offset e \<Longrightarrow> 0 \<le> length' e \<Longrightarrow> splice text e = text @ content e"
proof -
  assume far: "int (length text) \<le> offset e" and len: "0 \<le> length' e"
  have a: "clamp_pos text (offset e) = length text"
    using far by (simp add: clamp_pos_def Let_def min_def)
  have b: "clamp_pos text (offset e + length' e) = length text"
    using far len by (auto simp: clamp_pos_def Let_def min_def)
  have c: "clamp_pos text 0 = 0"
    by (simp add: clamp_pos_def)
  show ?thesis by (simp add: splice_def slice_def slice_from_def a b c)
qed

lemma insort_key_last:
  "\<forall>y\<in>set ys. f y < f x \<Longrightarrow> insort_key f x ys = ys @ [x]"
  by (induction ys) (auto simp: not_le [symmetric])

lemma sort_descending_rev:
  "sorted_wrt (\<lambda>a b. offset a < offset b) es \<Longrightarrow> sort_key (\<lambda>e. - offset e) es = rev es"
proof (induction es)
  case Nil
  then show ?case by simp
next
  case (Cons e es)
  then have "sort_key (\<lambda>e. - offset e) es = rev es" by simp
  moreover have "insort_key (\<lambda>e. - offset e) e (rev es) = rev es @ [e]"
    using Cons.prems by (intro insort_key_last) auto
  ultimately show ?case by simp
qed

text \<open>
  Claim C4, as amended. The code does not sort: it reverses the list it is given. For
  every text and every list of valid descriptors (offset and length not negative, offset
  plus length within the text) that is in order, that is, in which every descriptor begins
  at or after the end of each descriptor listed before it, reversing the list and splicing
  each descriptor yields the text in which every descriptor's span of the original is
  replaced by its content; when the offsets are strictly ascending this is also what
  sorting by offset, descending, and splicing yields.
\<close>

theorem applyEdits_in_order:
  assumes "list_all (in_bounds text) edits" and "in_order edits"
  shows "applyEdits text edits = rebuild text 0 edits
         \<and> (sorted_wrt (\<lambda>a b. offset a < offset b) edits
              \<longrightarrow> applyEdits text edits = patch_descending text edits)"
  using applyEdits_prefix [OF well_placed_in_order [OF assms]] sort_descending_rev [of edits]
  by (simp add: applyEdits_def patch_descending_def)

theorem applyEdits_in_order_witness:
  "list_all (in_bounds ''abcd'')
      [\<lparr>offset = 0, length' = 1, content = ''YYY''\<rparr>, \<lparr>offset = 2, length' = 1, content = ''XX''\<rparr>]
   \<and> in_order
      [\<lparr>offset = 0, length' = 1, content = ''YYY''\<rparr>, \<lparr>offset = 2, length' = 1, content = ''XX''\<rparr>]
   \<and> sorted_wrt (\<lambda>a b. offset a < offset b)
      [\<lparr>offset = 0, length' = 1, content = ''YYY''\<rparr>, \<lparr>offset = 2, length' = 1, content = ''XX''\<rparr>]
   \<and> applyEdits ''abcd''
      [\<lparr>offset = 0, length' = 1, content = ''YYY''\<rparr>, \<lparr>offset = 2, length' = 1, content = ''XX''\<rparr>]
     = ''YYYbXXd''
   \<and> patch_descending ''abcd''
      [\<lparr>offset = 0, length' = 1, content = ''YYY''\<rparr>, \<lparr>offset = 2, length' = 1, content = ''XX''\<rparr>]
     = ''YYYbXXd''"
proof -
  let ?es = "[\<lparr>offset = 0, length' = 1, content = ''YYY''\<rparr>, \<lparr>offset = 2, length' = 1, content = ''XX''\<rparr>]"
  have ib: "list_all (in_bounds ''abcd'') ?es" by (simp add: in_bounds_def)
  have io: "in_order ?es" by (simp add: in_order_def)
  have so: "sorted_wrt (\<lambda>a b. offset a < offset b) ?es" by simp
  have rb: "rebuild ''abcd'' 0 ?es = ''YYYbXXd''" by simp
  note ordered = applyEdits_in_order [OF ib io]
  from ordered have a: "applyEdits ''abcd'' ?es = rebuild ''abcd'' 0 ?es"
    by (rule conjunct1)
  from ordered so have b: "applyEdits ''abcd'' ?es = patch_descending ''abcd'' ?es"
    by blast
  have c: "applyEdits ''abcd'' ?es = ''YYYbXXd''"
    by (rule trans [OF a rb])
  have d: "patch_descending ''abcd'' ?es = ''YYYbXXd''"
    by (rule trans [OF b [symmetric] c])
  from ib io so c d show ?thesis by (intro conjI)
qed

text \<open>
  The same two valid descriptors, which do not overlap, give two different texts in their
  two orders: the result depends on the order of the list. Sorting by offset, descending,
  would have given the first text in the second order too.
\<close>

theorem applyEdits_order_counterexample:
  "in_bounds ''abcd'' \<lparr>offset = 0, length' = 1, content = ''YYY''\<rparr>
   \<and> in_bounds ''abcd'' \<lparr>offset = 2, length' = 1, content = ''XX''\<rparr>
   \<and> apart \<lparr>offset = 0, length' = 1, content = ''YYY''\<rparr> \<lparr>offset = 2, length' = 1, content = ''XX''\<rparr>
   \<and> applyEdits ''abcd''
       [\<lparr>offset = 0, length' = 1, content = ''YYY''\<rparr>, \<lparr>offset = 2, length' = 1, content = ''XX''\<rparr>]
       = ''YYYbXXd''
   \<and> applyEdits ''abcd''
       [\<lparr>offset = 2, length' = 1, content = ''XX''\<rparr>, \<lparr>offset = 0, length' = 1, content = ''YYY''\<rparr>]
       = ''YYXXbcd''
   \<and> patch_descending ''abcd''
       [\<lparr>offset = 2, length' = 1, content = ''XX''\<rparr>, \<lparr>offset = 0, length' = 1, content = ''YYY''\<rparr>]
       = ''YYYbXXd''"
  by (simp add: in_bounds_def apart_def applyEdits_def patch_descending_def splice_def slice_def
        slice_from_def clamp_pos_def)

text \<open>
  Ascending offsets alone are not enough: an insertion listed after a replacement that
  begins at the same position is lost, and kept when it is listed before it.
\<close>

lemma insertion_listed_after_replacement:
  "list_all (in_bounds ''abcdefgh'')
     [\<lparr>offset = 2, length' = 3, content = ''P''\<rparr>, \<lparr>offset = 2, length' = 0, content = ''XY''\<rparr>]
   \<and> apart \<lparr>offset = 2, length' = 3, content = ''P''\<rparr> \<lparr>offset = 2, length' = 0, content = ''XY''\<rparr>
   \<and> \<not> in_order
     [\<lparr>offset = 2, length' = 3, content = ''P''\<rparr>, \<lparr>offset = 2, length' = 0, content = ''XY''\<rparr>]
   \<and> applyEdits ''abcdefgh''
     [\<lparr>offset = 2, length' = 3, content = ''P''\<rparr>, \<lparr>offset = 2, length' = 0, content = ''XY''\<rparr>]
     = ''abPdefgh''
   \<and> applyEdits ''abcdefgh''
     [\<lparr>offset = 2, length' = 0, content = ''XY''\<rparr>, \<lparr>offset = 2, length' = 3, content = ''P''\<rparr>]
     = ''abXYPfgh''"
  by (simp add: in_bounds_def apart_def in_order_def applyEdits_def splice_def slice_def
        slice_from_def clamp_pos_def)

section \<open>The edit as a whole\<close>

text \<open>
  The two copies of the inner \<^verbatim>\<open>try\<close> compute one value, and the path handed to the
  library is the path received.
\<close>

lemma nodePath_id: "map (\<lambda>p. case p of Index n \<Rightarrow> Index n | Key s \<Rightarrow> Key s) p = p"
  by (induction p) (auto split: segment.splits)

lemma newVal_written:
  "(case JSON_parse h (case newValueRaw of None \<Rightarrow> ''null'' | Some s \<Rightarrow> s) of
      Inr v \<Rightarrow> v
    | Inl e \<Rightarrow> Prim (JStr (case newValueRaw of None \<Rightarrow> [] | Some s \<Rightarrow> s)))
   = written_value h newValueRaw"
  by (simp add: written_value_def two_tier_def split: option.splits)

lemma applyEditToJson_try_folded:
  "applyEditToJson_try h doc path newValueRaw =
     (if no_path path
      then (case JSON_parse h doc of
              Inl err \<Rightarrow> Inl err
            | Inr parsed \<Rightarrow> Inr (JSON_stringify h (written_value h newValueRaw) 2))
      else (case jsoncModify h doc (case path of None \<Rightarrow> [] | Some p \<Rightarrow> p)
                   (written_value h newValueRaw) \<lparr>insertSpaces = True, tabSize = 2\<rparr> of
              Inl err \<Rightarrow> Inl err
            | Inr edits \<Rightarrow> Inr (applyEdits doc edits)))"
  unfolding applyEditToJson_try_def newVal_written nodePath_id Let_def ..

lemma applyEditToJson_root:
  "no_path path \<Longrightarrow>
   applyEditToJson h doc path newValueRaw =
     (case JSON_parse h doc of
        Inl err \<Rightarrow> doc
      | Inr parsed \<Rightarrow> JSON_stringify h (written_value h newValueRaw) 2)"
  by (simp add: applyEditToJson_def applyEditToJson_try_folded split: sum.splits)

lemma applyEditToJson_path:
  "applyEditToJson h doc (Some (seg # segs)) newValueRaw =
     (case jsoncModify h doc (seg # segs) (written_value h newValueRaw)
             \<lparr>insertSpaces = True, tabSize = 2\<rparr> of
        Inl err \<Rightarrow> doc
      | Inr edits \<Rightarrow> applyEdits doc edits)"
  by (simp add: applyEditToJson_def applyEditToJson_try_folded no_path_def split: sum.splits)

lemma written_value_Some: "written_value h (Some raw) = two_tier h raw"
  by (simp add: written_value_def)



text \<open>
  Claim C2. The value written is the raw text parsed as JSON when it parses and the raw
  text as a string when it does not, and it is the same value in both modes: with an empty
  or absent path its serialization with two blanks is the result (for a document that
  parses), with any other path it is the value handed to the library.
\<close>

theorem coercion_in_both_modes:
  "(no_path path \<longrightarrow>
      applyEditToJson h doc path (Some raw) =
        (case JSON_parse h doc of
           Inl err \<Rightarrow> doc
         | Inr parsed \<Rightarrow> JSON_stringify h (two_tier h raw) 2))
   \<and> applyEditToJson h doc (Some (seg # segs)) (Some raw) =
        (case jsoncModify h doc (seg # segs) (two_tier h raw)
                \<lparr>insertSpaces = True, tabSize = 2\<rparr> of
           Inl err \<Rightarrow> doc
         | Inr edits \<Rightarrow> applyEdits doc edits)
   \<and> (JSON_parse h raw = Inr v \<longrightarrow> two_tier h raw = v)
   \<and> (JSON_parse h raw = Inl e \<longrightarrow> two_tier h raw = Prim (JStr raw))"
proof (intro conjI impI)
  assume "no_path path"
  then show "applyEditToJson h doc path (Some raw) =
        (case JSON_parse h doc of
           Inl err \<Rightarrow> doc
         | Inr parsed \<Rightarrow> JSON_stringify h (two_tier h raw) 2)"
    by (simp only: applyEditToJson_root written_value_Some)
next
  show "applyEditToJson h doc (Some (seg # segs)) (Some raw) =
        (case jsoncModify h doc (seg # segs) (two_tier h raw)
                \<lparr>insertSpaces = True, tabSize = 2\<rparr> of
           Inl err \<Rightarrow> doc
         | Inr edits \<Rightarrow> applyEdits doc edits)"
    by (simp only: applyEditToJson_path written_value_Some)
next
  assume "JSON_parse h raw = Inr v"
  then show "two_tier h raw = v" by (simp add: two_tier_def)
next
  assume "JSON_parse h raw = Inl e"
  then show "two_tier h raw = Prim (JStr raw)" by (simp add: two_tier_def)
qed

theorem coercion_in_both_modes_witness:
  \<open>applyEditToJson sample_host ''{"a":1}'' (Some [Key ''a'']) (Some ''hello'') = ''{"a":"hello"}''
   \<and> applyEditToJson sample_host ''{"a":1}'' (Some [Key ''a'']) (Some ''42'') = ''{"a":42}''
   \<and> applyEditToJson sample_host ''{"a":1}'' (Some [Key ''a'']) (Some ''true'') = ''{"a":true}''
   \<and> applyEditToJson sample_host ''{"a":1}'' (Some []) (Some ''hello'') = ''"hello"''
   \<and> applyEditToJson sample_host ''{"a":1}'' None (Some ''42'') = ''42''\<close>
proof -
  have doc: \<open>JSON_parse sample_host ''{"a":1}'' = Inr (Obj [(''a'', Prim (JNum 1))])\<close>
    by (simp add: sample_simps)
  have np: "no_path (Some [])" "no_path None" by (simp_all add: no_path_def)
  show ?thesis
    using coercion_in_both_modes [of "Some []" sample_host \<open>''{"a":1}''\<close> "''hello''" "Key ''a''" "[]"]
      coercion_in_both_modes [of None sample_host \<open>''{"a":1}''\<close> "''42''" "Key ''a''" "[]"]
      coercion_in_both_modes [of None sample_host \<open>''{"a":1}''\<close> "''true''" "Key ''a''" "[]"]
    by (simp add: np doc sample_two_tier sample_stringify sample_modify_a splice_a)
qed

text \<open>
  Claim C3, as amended. For every document that \<^verbatim>\<open>JSON.parse\<close> accepts and every raw value,
  when the path is empty or absent the result is the serialization, with two blanks, of
  the coerced new value: the library is not called, and nothing of the document is kept.
\<close>

theorem root_replacement:
  assumes "JSON_parse h doc = Inr parsed" and "no_path path"
  shows "applyEditToJson h doc path newValueRaw = JSON_stringify h (written_value h newValueRaw) 2"
  using assms applyEditToJson_root [of path h doc newValueRaw] by simp

theorem root_replacement_witness:
  \<open>applyEditToJson sample_host ''[]'' (Some []) (Some ''{"a":1}'')
     = ''{'' @ [CHR 0x0A] @ ''  "a": 1'' @ [CHR 0x0A] @ ''}''\<close>
  using root_replacement [of sample_host "''[]''" "Arr []" "Some []" \<open>Some ''{"a":1}''\<close>]
  by (simp add: no_path_simps sample_parse_doc written_value_Some sample_two_tier sample_stringify)

text \<open>
  A document that \<^verbatim>\<open>JSON.parse\<close> rejects is returned as it is: line 57 parses it before
  anything is written.
\<close>

theorem root_replacement_counterexample:
  \<open>applyEditToJson sample_host ''{'' None (Some ''42'') = ''{''
   \<and> JSON_stringify sample_host (written_value sample_host (Some ''42'')) 2 = ''42''\<close>
  by (simp add: applyEditToJson_root no_path_simps sample_parse_doc written_value_Some
        sample_two_tier sample_stringify)




text \<open>
  Claim C6. For a document \<open>D\<close> that parses and a value \<open>V\<close> that \<^verbatim>\<open>JSON.parse\<close> reads
  back from both of its serializations, the compact one and the one with two blanks,
  replacing the root of \<open>D\<close> by the compact serialization of \<open>V\<close> yields a text that
  parses to \<open>V\<close>.
\<close>

theorem root_replacement_round_trip:
  assumes "JSON_parse h D = Inr d"
    and "JSON_parse h (JSON_stringify h V 0) = Inr V"
    and "JSON_parse h (JSON_stringify h V 2) = Inr V"
    and "no_path path"
  shows "JSON_parse h (applyEditToJson h D path (Some (JSON_stringify h V 0))) = Inr V"
  using assms applyEditToJson_root [of path h D "Some (JSON_stringify h V 0)"]
  by (simp add: written_value_def two_tier_def)

theorem root_replacement_round_trip_witness:
  \<open>JSON_parse sample_host
      (applyEditToJson sample_host ''[]'' (Some [])
         (Some (JSON_stringify sample_host (Obj [(''a'', Prim (JNum 1))]) 0)))
     = Inr (Obj [(''a'', Prim (JNum 1))])\<close>
proof -
  let ?V = "Obj [(''a'', Prim (JNum 1))] :: int json"
  have doc: "JSON_parse sample_host ''[]'' = Inr (Arr [])"
    by (simp add: sample_simps)
  have compact: "JSON_parse sample_host (JSON_stringify sample_host ?V 0) = Inr ?V"
    by (simp only: sample_stringify sample_parse_doc)
  have indented: "JSON_parse sample_host (JSON_stringify sample_host ?V 2) = Inr ?V"
    by (simp only: sample_stringify sample_parse_doc)
  show ?thesis
    by (rule root_replacement_round_trip [OF doc compact indented]) (simp add: no_path_def)
qed

text \<open>
  Claim C9. When the raw value is absent the code parses the text \<^verbatim>\<open>null\<close>; on a host
  whose \<^verbatim>\<open>JSON.parse\<close> reads it as \<^verbatim>\<open>null\<close>, the value written is \<^verbatim>\<open>null\<close> in both modes:
  the result is the text \<^verbatim>\<open>null\<close> for an empty or absent path (and a document that
  parses), and \<^verbatim>\<open>null\<close> is the value handed to the library for any other path.
\<close>

theorem absent_value_writes_null:
  assumes "JSON_parse h ''null'' = Inr (Prim JNull)"
  shows "written_value h None = Prim JNull
    \<and> (no_path path \<longrightarrow>
         applyEditToJson h doc path None =
           (case JSON_parse h doc of Inl err \<Rightarrow> doc | Inr parsed \<Rightarrow> ''null''))
    \<and> applyEditToJson h doc (Some (seg # segs)) None =
         (case jsoncModify h doc (seg # segs) (Prim JNull) \<lparr>insertSpaces = True, tabSize = 2\<rparr> of
            Inl err \<Rightarrow> doc
          | Inr edits \<Rightarrow> applyEdits doc edits)"
proof -
  have w: "written_value h None = Prim JNull"
    using assms by (simp add: written_value_def)
  have s: "JSON_stringify h (Prim JNull) 2 = ''null''"
    by (simp add: JSON_stringify_def)
  have r: "applyEditToJson h doc path None =
           (case JSON_parse h doc of Inl err \<Rightarrow> doc | Inr parsed \<Rightarrow> ''null'')"
    if "no_path path"
    using that by (simp only: applyEditToJson_root w s)
  have p: "applyEditToJson h doc (Some (seg # segs)) None =
         (case jsoncModify h doc (seg # segs) (Prim JNull) \<lparr>insertSpaces = True, tabSize = 2\<rparr> of
            Inl err \<Rightarrow> doc
          | Inr edits \<Rightarrow> applyEdits doc edits)"
    by (simp only: applyEditToJson_path w)
  from w r p show ?thesis by blast
qed

theorem absent_value_writes_null_witness:
  \<open>applyEditToJson sample_host ''{"a":1}'' None None = ''null''
   \<and> applyEditToJson sample_host ''{"a":1}'' (Some [Key ''a'']) None = ''{"a":null}''\<close>
  using absent_value_writes_null [of sample_host None \<open>''{"a":1}''\<close> "Key ''a''" "[]"]
  by (simp add: no_path_simps sample_parse_doc sample_modify_a splice_a sample_stringify)

section \<open>The object built from the rows\<close>

text \<open>
  Without a row keyed \<^verbatim>\<open>__proto__\<close> every assignment is an ordinary one: a keyed scalar
  row sets its property, any other row is skipped.
\<close>

lemma add_row_plain:
  "key r \<noteq> Some ''__proto__'' \<Longrightarrow>
   add_row obj r =
     (if scalar_keyed r
      then obj\<lparr>properties := AList.update (the (key r)) (value' r) (properties obj)\<rparr>
      else obj)"
  by (cases "key r") (auto simp: add_row_def scalar_keyed_def assign_def truthy_def)

lemma properties_add_rows:
  "\<forall>r\<in>set rows. key r \<noteq> Some ''__proto__'' \<Longrightarrow>
   properties (foldl add_row obj rows) =
     foldl (\<lambda>ps r. if scalar_keyed r then AList.update (the (key r)) (value' r) ps else ps)
       (properties obj) rows"
proof (induction rows arbitrary: obj)
  case Nil
  then show ?case by simp
next
  case (Cons r rows)
  then have plain: "key r \<noteq> Some ''__proto__''" and rest: "\<forall>r\<in>set rows. key r \<noteq> Some ''__proto__''"
    by simp_all
  show ?case
    by (simp add: Cons.IH [OF rest] add_row_plain [OF plain])
qed

text \<open>The properties after the loop: for each key, the value of the last row that has it.\<close>

lemma map_of_updates:
  "map_of (foldl (\<lambda>ps r. if scalar_keyed r then AList.update (the (key r)) (value' r) ps else ps)
             ps rows)
   = map_of (rev (map (\<lambda>r. (the (key r), value' r)) (filter scalar_keyed rows)) @ ps)"
proof (induction rows arbitrary: ps)
  case Nil
  then show ?case by simp
next
  case (Cons r rows)
  show ?case
  proof (cases "scalar_keyed r")
    case True
    then show ?thesis
      by (simp add: Cons.IH update_conv' map_add_def fun_eq_iff split: option.splits)
  next
    case False
    then show ?thesis by (simp add: Cons.IH)
  qed
qed

lemma distinct_updates:
  "distinct (map fst ps) \<Longrightarrow>
   distinct (map fst (foldl (\<lambda>ps r. if scalar_keyed r
                                     then AList.update (the (key r)) (value' r) ps else ps)
                        ps rows))"
  by (induction rows arbitrary: ps) (simp_all add: distinct_update)

text \<open>The order of enumeration moves the properties and loses none.\<close>

lemma set_OwnPropertyKeys: "set (OwnPropertyKeys ps) = set ps"
  by (auto simp: OwnPropertyKeys_def)

lemma distinct_OwnPropertyKeys:
  assumes "distinct (map fst ps)"
  shows "distinct (map fst (OwnPropertyKeys ps))"
proof -
  let ?ix = "\<lambda>p. array_index (fst p) \<noteq> None"
  have inj: "inj_on fst (set ps)" and d: "distinct ps"
    using assms by (simp_all add: distinct_map)
  have a: "distinct (map fst (sort_key (\<lambda>p. the (array_index (fst p))) (filter ?ix ps)))"
    using d inj by (simp add: distinct_map inj_on_def)
  have b: "distinct (map fst (filter (\<lambda>p. array_index (fst p) = None) ps))"
    using assms by (rule distinct_map_filter)
  have c: "fst ` set (sort_key (\<lambda>p. the (array_index (fst p))) (filter ?ix ps))
             \<inter> fst ` set (filter (\<lambda>p. array_index (fst p) = None) ps) = {}"
    by auto
  show ?thesis
    unfolding OwnPropertyKeys_def using a b c by (simp only: map_append distinct_append set_map)
qed

lemma map_of_OwnPropertyKeys:
  "distinct (map fst ps) \<Longrightarrow> map_of (OwnPropertyKeys ps) = map_of ps"
  using distinct_OwnPropertyKeys [of ps] set_OwnPropertyKeys [of ps]
  by (simp add: map_of_inject_set)

lemma map_of_Prim:
  "map_of (map (\<lambda>p. (fst p, Prim (snd p))) xs) = map_option Prim \<circ> map_of xs"
  by (induction xs) (auto simp: fun_eq_iff)

lemma fst_Prim: "map fst (map (\<lambda>p. (fst p, Prim (snd p))) xs) = map fst xs"
  by (induction xs) simp_all

text \<open>
  Claim C10, as amended. For a row set with more than one row, or with a single row that
  has a (non-empty) key, and with no row keyed \<^verbatim>\<open>__proto__\<close>, \<^verbatim>\<open>normalizeNodeData\<close> returns
  the serialization with two blanks of an object that has one property for each key of
  the rows that have a key and whose type is neither \<^verbatim>\<open>array\<close> nor \<^verbatim>\<open>object\<close>, holding the
  value of the last such row with that key, and no other property. For a single row
  without a key it returns the row's value converted to a string.
\<close>

theorem normalizeNodeData_rows:
  "((2 \<le> length rows \<or> (length rows = 1 \<and> truthy (key (rows ! 0))))
      \<and> (\<forall>r\<in>set rows. key r \<noteq> Some ''__proto__'')
    \<longrightarrow> (\<exists>members.
           normalizeNodeData h (Some rows) = JSON_stringify h (Obj members) 2
           \<and> Obj members = json_of_object (foldl add_row empty_object rows)
           \<and> distinct (map fst members)
           \<and> map_of members =
               map_option Prim \<circ>
               map_of (rev (map (\<lambda>r. (the (key r), value' r)) (filter scalar_keyed rows)))))
   \<and> (\<not> truthy (key r) \<longrightarrow> normalizeNodeData h (Some [r]) = ToString h (value' r))"
proof (intro conjI impI)
  assume a: "(2 \<le> length rows \<or> (length rows = 1 \<and> truthy (key (rows ! 0))))
      \<and> (\<forall>r\<in>set rows. key r \<noteq> Some ''__proto__'')"
  let ?obj = "foldl add_row empty_object rows"
  let ?kept = "map (\<lambda>r. (the (key r), value' r)) (filter scalar_keyed rows)"
  let ?members = "map (\<lambda>p. (fst p, Prim (snd p))) (OwnPropertyKeys (properties ?obj))"
  from a have plain: "\<forall>r\<in>set rows. key r \<noteq> Some ''__proto__''" by simp
  have props: "properties ?obj =
      foldl (\<lambda>ps r. if scalar_keyed r then AList.update (the (key r)) (value' r) ps else ps) [] rows"
    using properties_add_rows [OF plain, of empty_object] by (simp add: empty_object_def)
  have dist: "distinct (map fst (properties ?obj))"
    unfolding props by (rule distinct_updates) simp
  have bind: "map_of (properties ?obj) = map_of (rev ?kept)"
    unfolding props by (simp add: map_of_updates)
  have result: "normalizeNodeData h (Some rows) = JSON_stringify h (Obj ?members) 2"
    using a by (auto simp: normalizeNodeData_def json_of_object_def)
  have same: "Obj ?members = json_of_object ?obj"
    by (simp add: json_of_object_def)
  have d: "distinct (map fst ?members)"
    using dist by (simp only: fst_Prim distinct_OwnPropertyKeys)
  have m: "map_of ?members = map_option Prim \<circ> map_of (rev ?kept)"
    using dist by (simp only: map_of_Prim map_of_OwnPropertyKeys bind)
  from result same d m show "\<exists>members.
           normalizeNodeData h (Some rows) = JSON_stringify h (Obj members) 2
           \<and> Obj members = json_of_object (foldl add_row empty_object rows)
           \<and> distinct (map fst members)
           \<and> map_of members = map_option Prim \<circ> map_of (rev ?kept)"
    by blast
next
  assume "\<not> truthy (key r)"
  then show "normalizeNodeData h (Some [r]) = ToString h (value' r)"
    by (simp add: normalizeNodeData_def)
qed

theorem normalizeNodeData_rows_witness:
  \<open>(\<exists>members.
      normalizeNodeData sample_host
        (Some [\<lparr>key = Some ''a'', value' = JNum 1, type = ''number''\<rparr>,
               \<lparr>key = Some ''list'', value' = JStr ''[2 items]'', type = ''array''\<rparr>,
               \<lparr>key = None, value' = JBool True, type = ''boolean''\<rparr>])
        = JSON_stringify sample_host (Obj members) 2
      \<and> distinct (map fst members)
      \<and> map_of members ''a'' = Some (Prim (JNum 1))
      \<and> map_of members ''list'' = None)
   \<and> normalizeNodeData sample_host (Some [\<lparr>key = None, value' = JStr ''hello'', type = ''string''\<rparr>])
       = ''hello''\<close>
proof -
  let ?rows = "[\<lparr>key = Some ''a'', value' = JNum (1::int), type = ''number''\<rparr>,
               \<lparr>key = Some ''list'', value' = JStr ''[2 items]'', type = ''array''\<rparr>,
               \<lparr>key = None, value' = JBool True, type = ''boolean''\<rparr>]"
  let ?single = "\<lparr>key = None, value' = JStr ''hello'' :: int prim, type = ''string''\<rparr>"
  note rows = normalizeNodeData_rows [of ?rows sample_host ?single]
  have pre: "(2 \<le> length ?rows \<or> (length ?rows = 1 \<and> truthy (key (?rows ! 0))))
      \<and> (\<forall>r\<in>set ?rows. key r \<noteq> Some ''__proto__'')"
    by simp
  have kept: "rev (map (\<lambda>r. (the (key r), value' r)) (filter scalar_keyed ?rows))
      = [(''a'', JNum 1)]"
    by (simp add: scalar_keyed_def truthy_def)
  from rows pre obtain members where
    m: "normalizeNodeData sample_host (Some ?rows) = JSON_stringify sample_host (Obj members) 2"
      "distinct (map fst members)"
      "map_of members = map_option Prim \<circ>
         map_of (rev (map (\<lambda>r. (the (key r), value' r)) (filter scalar_keyed ?rows)))"
    by blast
  from m(3) have "map_of members ''a'' = Some (Prim (JNum 1))" "map_of members ''list'' = None"
    by (simp_all only: kept) simp_all
  with m(1,2) have first: "\<exists>members.
      normalizeNodeData sample_host (Some ?rows) = JSON_stringify sample_host (Obj members) 2
      \<and> distinct (map fst members)
      \<and> map_of members ''a'' = Some (Prim (JNum 1))
      \<and> map_of members ''list'' = None"
    by blast
  have keyless: "\<not> truthy (key ?single)" by (simp add: truthy_def)
  from rows keyless have second: "normalizeNodeData sample_host (Some [?single]) = ''hello''"
    by (simp add: ToString_def)
  from first second show ?thesis by (rule conjI)
qed

text \<open>
  Two scalar rows with the same key: the object holds the second row only, and the result
  is the one the second row alone gives.
\<close>

theorem normalizeNodeData_rows_counterexample:
  \<open>scalar_keyed \<lparr>key = Some ''a'', value' = JNum (1::int), type = ''number''\<rparr>
   \<and> normalizeNodeData sample_host
        (Some [\<lparr>key = Some ''a'', value' = JNum 1, type = ''number''\<rparr>,
               \<lparr>key = Some ''a'', value' = JNum 2, type = ''number''\<rparr>])
       = ''{'' @ [CHR 0x0A] @ ''  "a": 2'' @ [CHR 0x0A] @ ''}''
   \<and> normalizeNodeData sample_host
        (Some [\<lparr>key = Some ''a'', value' = JNum 2, type = ''number''\<rparr>])
       = ''{'' @ [CHR 0x0A] @ ''  "a": 2'' @ [CHR 0x0A] @ ''}''\<close>
proof -
  have ix: "array_index ''a'' = None"
    by (simp add: array_index_def is_digit_def)
  have gap: "replicate 2 CHR '' '' = ''  ''"
    by (simp add: numeral_2_eq_2)
  show ?thesis
    by (simp add: scalar_keyed_def truthy_def normalizeNodeData_def add_row_def assign_def
          empty_object_def json_of_object_def OwnPropertyKeys_def ix stringify_simps gap
          sample_simps decimal_samples)
qed

text \<open>
  Why rows keyed \<^verbatim>\<open>__proto__\<close> are set apart: on the fresh object the assignment of a
  string reaches the inherited accessor and sets no property.
\<close>

lemma proto_row_sets_no_property:
  \<open>normalizeNodeData sample_host
     (Some [\<lparr>key = Some ''__proto__'', value' = JStr ''x'', type = ''string''\<rparr>,
            \<lparr>key = Some ''a'', value' = JNum 2, type = ''number''\<rparr>])
   = ''{'' @ [CHR 0x0A] @ ''  "a": 2'' @ [CHR 0x0A] @ ''}''\<close>
proof -
  have ix: "array_index ''a'' = None"
    by (simp add: array_index_def is_digit_def)
  have gap: "replicate 2 CHR '' '' = ''  ''"
    by (simp add: numeral_2_eq_2)
  show ?thesis
    by (simp add: truthy_def normalizeNodeData_def add_row_def assign_def
          empty_object_def json_of_object_def OwnPropertyKeys_def ix stringify_simps gap
          sample_simps decimal_samples)
qed

end
